theory Spec2Isabelle
  imports Main
begin

section \<open>Strings of the source language\<close>

text \<open>
  The two source files, \<^verbatim>\<open>nlp_to_pythoncode.py\<close> (the full version) and
  \<^verbatim>\<open>nl_to_python.py\<close> (the minimal version), turn an instruction string into a
  string of Python code. A Python \<^verbatim>\<open>str\<close> is a sequence of code points; a
  \<^typ>\<open>char\<close> has 256 values, so a \<^typ>\<open>string\<close> is a \<^verbatim>\<open>str\<close> whose code
  points lie in 0..255, \<open>CHR n\<close> being the code point \<open>n\<close>. The character classes
  below (\<^verbatim>\<open>str.strip\<close>, \<^verbatim>\<open>str.lower\<close>, \<^verbatim>\<open>str.isdigit\<close>,
  \<^verbatim>\<open>\d\<close>, \<^verbatim>\<open>\w\<close>, \<^verbatim>\<open>.\<close>) are Python's on all of these 256 code
  points. An exception raised by the source is a value \<open>Inl e\<close>, a returned string is
  \<open>Inr s\<close>.
\<close>

datatype error = ValueError | KeyError | IndexError

text \<open>
  The characters \<^verbatim>\<open>str.strip()\<close> removes: the ASCII whitespace, the separators
  0x1C to 0x1F, the next-line control 0x85 and the no-break space 0xA0.
\<close>

definition is_space :: "char \<Rightarrow> bool" where
  "is_space c = (c \<in> set [CHR 0x09, CHR 0x0A, CHR 0x0B, CHR 0x0C, CHR 0x0D,
                           CHR 0x1C, CHR 0x1D, CHR 0x1E, CHR 0x1F, CHR 0x20,
                           CHR 0x85, CHR 0xA0])"

text \<open>\<^verbatim>\<open>\d\<close> in a pattern: the decimal digits, which below 256 are 0 to 9.\<close>

definition is_digit :: "char \<Rightarrow> bool" where
  "is_digit c = (c \<in> set ''0123456789'')"

text \<open>
  The characters \<^verbatim>\<open>str.isdigit()\<close> accepts: the decimal digits and the
  superscripts two, three and one (0xB2, 0xB3, 0xB9).
\<close>

definition is_digit_like :: "char \<Rightarrow> bool" where
  "is_digit_like c = (c \<in> set (''0123456789'' @ [CHR 0xB2, CHR 0xB3, CHR 0xB9]))"

text \<open>
  \<^verbatim>\<open>\w\<close> in a pattern: letters, digits and the underscore, and below 256 also
  the Latin-1 letters, the superscript digits and the three fractions.
\<close>

definition is_word :: "char \<Rightarrow> bool" where
  "is_word c =
     (c \<in> set (''abcdefghijklmnopqrstuvwxyzABCDEFGHIJKLMNOPQRSTUVWXYZ0123456789_'' @
     [CHR 0xAA, CHR 0xB2, CHR 0xB3, CHR 0xB5, CHR 0xB9, CHR 0xBA, CHR 0xBC, CHR 0xBD,
      CHR 0xBE, CHR 0xC0, CHR 0xC1, CHR 0xC2, CHR 0xC3, CHR 0xC4, CHR 0xC5, CHR 0xC6,
      CHR 0xC7, CHR 0xC8, CHR 0xC9, CHR 0xCA, CHR 0xCB, CHR 0xCC, CHR 0xCD, CHR 0xCE,
      CHR 0xCF, CHR 0xD0, CHR 0xD1, CHR 0xD2, CHR 0xD3, CHR 0xD4, CHR 0xD5, CHR 0xD6,
      CHR 0xD8, CHR 0xD9, CHR 0xDA, CHR 0xDB, CHR 0xDC, CHR 0xDD, CHR 0xDE, CHR 0xDF,
      CHR 0xE0, CHR 0xE1, CHR 0xE2, CHR 0xE3, CHR 0xE4, CHR 0xE5, CHR 0xE6, CHR 0xE7,
      CHR 0xE8, CHR 0xE9, CHR 0xEA, CHR 0xEB, CHR 0xEC, CHR 0xED, CHR 0xEE, CHR 0xEF,
      CHR 0xF0, CHR 0xF1, CHR 0xF2, CHR 0xF3, CHR 0xF4, CHR 0xF5, CHR 0xF6, CHR 0xF8,
      CHR 0xF9, CHR 0xFA, CHR 0xFB, CHR 0xFC, CHR 0xFD, CHR 0xFE, CHR 0xFF]))"

text \<open>
  \<^verbatim>\<open>s.lower()\<close>: the capitals A to Z and the Latin-1 capitals 0xC0 to 0xDE
  (without the multiplication sign 0xD7) go to the letter 0x20 above them.
\<close>

definition upper_chars :: string where
  "upper_chars = ''ABCDEFGHIJKLMNOPQRSTUVWXYZ'' @
     [CHR 0xC0, CHR 0xC1, CHR 0xC2, CHR 0xC3, CHR 0xC4, CHR 0xC5, CHR 0xC6, CHR 0xC7,
      CHR 0xC8, CHR 0xC9, CHR 0xCA, CHR 0xCB, CHR 0xCC, CHR 0xCD, CHR 0xCE, CHR 0xCF,
      CHR 0xD0, CHR 0xD1, CHR 0xD2, CHR 0xD3, CHR 0xD4, CHR 0xD5, CHR 0xD6, CHR 0xD8,
      CHR 0xD9, CHR 0xDA, CHR 0xDB, CHR 0xDC, CHR 0xDD, CHR 0xDE]"

definition lower_chars :: string where
  "lower_chars = ''abcdefghijklmnopqrstuvwxyz'' @
     [CHR 0xE0, CHR 0xE1, CHR 0xE2, CHR 0xE3, CHR 0xE4, CHR 0xE5, CHR 0xE6, CHR 0xE7,
      CHR 0xE8, CHR 0xE9, CHR 0xEA, CHR 0xEB, CHR 0xEC, CHR 0xED, CHR 0xEE, CHR 0xEF,
      CHR 0xF0, CHR 0xF1, CHR 0xF2, CHR 0xF3, CHR 0xF4, CHR 0xF5, CHR 0xF6, CHR 0xF8,
      CHR 0xF9, CHR 0xFA, CHR 0xFB, CHR 0xFC, CHR 0xFD, CHR 0xFE]"

definition lower_char :: "char \<Rightarrow> char" where
  "lower_char c =
     (case map_of (zip upper_chars lower_chars) c of
        Some d \<Rightarrow> d
      | None \<Rightarrow> c)"

definition lower :: "string \<Rightarrow> string" where
  "lower s = map lower_char s"

text \<open>\<^verbatim>\<open>s.strip()\<close>: leading and trailing whitespace removed.\<close>

definition strip :: "string \<Rightarrow> string" where
  "strip s = rev (dropWhile is_space (rev (dropWhile is_space s)))"

text \<open>\<^verbatim>\<open>s.isdigit()\<close>: at least one character, all of them digits.\<close>

definition isdigit :: "string \<Rightarrow> bool" where
  "isdigit s = (s \<noteq> [] \<and> list_all is_digit_like s)"

text \<open>What a group \<^verbatim>\<open>(\d+)\<close> captures: one or more decimal digits.\<close>

definition decimal_digits :: "string \<Rightarrow> bool" where
  "decimal_digits s = (s \<noteq> [] \<and> list_all is_digit s)"

text \<open>\<^verbatim>\<open>s.split(sep)\<close> for a separator of one character: never an empty list.\<close>

fun split_on :: "char \<Rightarrow> string \<Rightarrow> string list" where
  "split_on sep [] = [[]]"
| "split_on sep (c # cs) =
     (if c = sep then [] # split_on sep cs
      else (case split_on sep cs of
              t # ts \<Rightarrow> (c # t) # ts
            | [] \<Rightarrow> [[c]]))"

text \<open>\<^verbatim>\<open>sep.join(xs)\<close>\<close>

fun join :: "string \<Rightarrow> string list \<Rightarrow> string" where
  "join sep [] = []"
| "join sep [x] = x"
| "join sep (x # y # ys) = x @ sep @ join sep (y # ys)"

text \<open>
  \<^verbatim>\<open>int(s)\<close> on a string: whitespace around the text is dropped (for \<^verbatim>\<open>int\<close>
  the separators 0x1C to 0x1F are not whitespace), then comes an optional sign, then
  decimal digits, where single underscores may stand between digits. Anything else
  raises \<open>ValueError\<close>, and so does a text of more than 4300 digits (the default limit
  of CPython 3.11 on conversions between \<^verbatim>\<open>int\<close> and \<^verbatim>\<open>str\<close>).
\<close>

definition max_str_digits :: nat where
  "max_str_digits = 4300"

definition is_int_space :: "char \<Rightarrow> bool" where
  "is_int_space c = (c \<in> set [CHR 0x09, CHR 0x0A, CHR 0x0B, CHR 0x0C, CHR 0x0D, CHR 0x20,
                               CHR 0x85, CHR 0xA0])"

definition int_strip :: "string \<Rightarrow> string" where
  "int_strip s = rev (dropWhile is_int_space (rev (dropWhile is_int_space s)))"

fun digit_groups_ok :: "string \<Rightarrow> bool" where
  "digit_groups_ok [] = False"
| "digit_groups_ok [c] = is_digit c"
| "digit_groups_ok (c # d # r) =
     (is_digit c \<and> (if d = CHR ''_'' then digit_groups_ok r else digit_groups_ok (d # r)))"

definition digit_val :: "char \<Rightarrow> nat" where
  "digit_val c =
     (case map_of (zip ''0123456789'' [0, 1, 2, 3, 4, 5, 6, 7, 8, 9]) c of
        Some d \<Rightarrow> d
      | None \<Rightarrow> 0)"

definition dec_value :: "string \<Rightarrow> int" where
  "dec_value ds = foldl (\<lambda>a c. 10 * a + int (digit_val c)) 0 ds"

definition int_of :: "string \<Rightarrow> error + int" where
  "int_of s =
     (let t = int_strip s;
          neg = (t \<noteq> [] \<and> hd t = CHR ''-'');
          body = (if t \<noteq> [] \<and> (hd t = CHR ''-'' \<or> hd t = CHR ''+'') then tl t else t);
          ds = filter is_digit body
      in if \<not> digit_groups_ok body \<or> max_str_digits < length ds then Inl ValueError
         else Inr (if neg then - dec_value ds else dec_value ds))"

text \<open>
  The decimal rendering of an integer by \<^verbatim>\<open>format\<close> and by an f-string; it raises
  \<open>ValueError\<close> for a number of more than 4300 digits.
\<close>

definition digit_char :: "nat \<Rightarrow> char" where
  "digit_char d = ''0123456789'' ! d"

fun str_nat :: "nat \<Rightarrow> string" where
  "str_nat n =
     (if n < 10 then [digit_char n]
      else str_nat (n div 10) @ [digit_char (n mod 10)])"

declare str_nat.simps [simp del]

definition format_int :: "int \<Rightarrow> error + string" where
  "format_int i =
     (let ds = str_nat (nat (abs i))
      in if max_str_digits < length ds then Inl ValueError
         else Inr (if i < 0 then CHR ''-'' # ds else ds))"


section \<open>Regular expressions as the source uses them\<close>

text \<open>
  Every trigger of the source is a sequence of literal text and capture groups, where a
  group is one of \<^verbatim>\<open>(.+)\<close>, \<^verbatim>\<open>(\d+)\<close>, \<^verbatim>\<open>(\w+)\<close> or an alternation of
  literals such as \<^verbatim>\<open>(add|subtract|multiply|divide)\<close>; one trigger,
  \<^verbatim>\<open>help|show commands\<close>, is an alternation of two such sequences at top level.
  A pattern is therefore a list of alternatives, each a list of items.

  The matcher is the backtracking matcher of Python's \<^verbatim>\<open>re\<close>: it returns every way
  a pattern matches at the start of a string, as the captured groups and the text left
  over, in the order in which backtracking finds them (a greedy \<^verbatim>\<open>+\<close> tries the
  longest run first, an alternation tries its branches from left to right).
\<close>

datatype cclass = AnyChar | Digit | WordChar

fun in_class :: "cclass \<Rightarrow> char \<Rightarrow> bool" where
  "in_class AnyChar c = (c \<noteq> CHR 0x0A)"
| "in_class Digit c = is_digit c"
| "in_class WordChar c = is_word c"

datatype item = Lit string | GPlus cclass | GAlt "string list"

type_synonym pattern = "item list list"

fun after_prefix :: "string \<Rightarrow> string \<Rightarrow> string option" where
  "after_prefix [] s = Some s"
| "after_prefix (c # cs) [] = None"
| "after_prefix (c # cs) (d # ds) = (if c = d then after_prefix cs ds else None)"

fun plus_splits :: "(char \<Rightarrow> bool) \<Rightarrow> string \<Rightarrow> (string \<times> string) list" where
  "plus_splits P [] = []"
| "plus_splits P (x # xs) =
     (if P x then map (\<lambda>(u, r). (x # u, r)) (plus_splits P xs) @ [([x], xs)] else [])"

fun alt_splits :: "string list \<Rightarrow> string \<Rightarrow> (string \<times> string) list" where
  "alt_splits [] s = []"
| "alt_splits (l # ls) s =
     (case after_prefix l s of
        Some r \<Rightarrow> (l, r) # alt_splits ls s
      | None \<Rightarrow> alt_splits ls s)"

fun match_item :: "item \<Rightarrow> string \<Rightarrow> (string list \<times> string) list" where
  "match_item (Lit l) s = (case after_prefix l s of Some r \<Rightarrow> [([], r)] | None \<Rightarrow> [])"
| "match_item (GPlus c) s = map (\<lambda>(u, r). ([u], r)) (plus_splits (in_class c) s)"
| "match_item (GAlt ls) s = map (\<lambda>(u, r). ([u], r)) (alt_splits ls s)"

fun match_seq :: "item list \<Rightarrow> string \<Rightarrow> (string list \<times> string) list" where
  "match_seq [] s = [([], s)]"
| "match_seq (i # is) s =
     concat (map (\<lambda>(g, r). map (\<lambda>(gs, r'). (g @ gs, r')) (match_seq is r))
                 (match_item i s))"

definition match_pattern :: "pattern \<Rightarrow> string \<Rightarrow> (string list \<times> string) list" where
  "match_pattern p s = concat (map (\<lambda>alt. match_seq alt s) p)"

text \<open>
  \<^verbatim>\<open>re.fullmatch(p, s)\<close>: the first way of matching that leaves nothing over; the
  result is the list of captured groups, \<^verbatim>\<open>m.group(1)\<close> first.
\<close>

definition fullmatch :: "pattern \<Rightarrow> string \<Rightarrow> string list option" where
  "fullmatch p s = map_option fst (find (\<lambda>(gs, r). r = []) (match_pattern p s))"

text \<open>
  \<^verbatim>\<open>re.search(p, s)\<close>: the first way of matching at the leftmost position where
  the pattern matches at all.
\<close>

fun search :: "pattern \<Rightarrow> string \<Rightarrow> string list option" where
  "search p [] = (case match_pattern p [] of [] \<Rightarrow> None | (gs, r) # _ \<Rightarrow> Some gs)"
| "search p (x # xs) =
     (case match_pattern p (x # xs) of
        [] \<Rightarrow> search p xs
      | (gs, r) # _ \<Rightarrow> Some gs)"

section \<open>The rule table of the full version\<close>

text \<open>
  A rule is a pair of a trigger and a transformation; the transformation reads the
  groups of the match. Asking for a group the match does not have raises
  \<open>IndexError\<close>.
\<close>

type_synonym rule = "pattern \<times> (string list \<Rightarrow> error + string)"

text \<open>
  The expression \<^verbatim>\<open>'"{}"'.format(v) if not v.isdigit() else v\<close>, which the list,
  append and dictionary rules each spell out.
\<close>

definition literal_of :: "string \<Rightarrow> string" where
  "literal_of v = (if \<not> isdigit v then ''\"'' @ v @ ''\"'' else v)"

text \<open>Pattern 1: \<^verbatim>\<open>print (.+)\<close>\<close>

definition pat_print_text :: pattern where
  "pat_print_text = [[Lit ''print '', GPlus AnyChar]]"

definition act_print_text :: "string list \<Rightarrow> error + string" where
  "act_print_text m =
     (case m of [g1] \<Rightarrow> Inr (''print(\"'' @ g1 @ ''\")'') | _ \<Rightarrow> Inl IndexError)"

text \<open>Pattern 2: \<^verbatim>\<open>print numbers from (\d+) to (\d+)\<close>\<close>

definition pat_print_numbers :: pattern where
  "pat_print_numbers = [[Lit ''print numbers from '', GPlus Digit, Lit '' to '', GPlus Digit]]"

definition act_print_numbers :: "string list \<Rightarrow> error + string" where
  "act_print_numbers m =
     (case m of
        [g1, g2] \<Rightarrow>
          (case int_of g1 of
             Inl e \<Rightarrow> Inl e
           | Inr start \<Rightarrow>
               (case int_of g2 of
                  Inl e \<Rightarrow> Inl e
                | Inr stop \<Rightarrow>
                    (case format_int start of
                       Inl e \<Rightarrow> Inl e
                     | Inr a \<Rightarrow>
                         (case format_int (stop + 1) of
                            Inl e \<Rightarrow> Inl e
                          | Inr b \<Rightarrow>
                              Inr (''for i in range('' @ a @ '', '' @ b
                                   @ ''):\<newline>    print(i)'')))))
      | _ \<Rightarrow> Inl IndexError)"

text \<open>Pattern 3: \<^verbatim>\<open>(add|subtract|multiply|divide) (\d+) and (\d+)\<close>\<close>

definition pat_arith :: pattern where
  "pat_arith =
     [[GAlt [''add'', ''subtract'', ''multiply'', ''divide''], Lit '' '', GPlus Digit,
       Lit '' and '', GPlus Digit]]"

definition op_symbols :: "(string \<times> string) list" where
  "op_symbols =
     [(''add'', ''+''), (''subtract'', ''-''), (''multiply'', ''*''), (''divide'', ''/'')]"

definition act_arith :: "string list \<Rightarrow> error + string" where
  "act_arith m =
     (case m of
        [g1, g2, g3] \<Rightarrow>
          (case map_of op_symbols g1 of
             Some symb \<Rightarrow> Inr (''print('' @ g2 @ '' '' @ symb @ '' '' @ g3 @ '')'')
           | None \<Rightarrow> Inl KeyError)
      | _ \<Rightarrow> Inl IndexError)"

text \<open>Pattern 4: \<^verbatim>\<open>create list (.+)\<close>\<close>

definition pat_create_list :: pattern where
  "pat_create_list = [[Lit ''create list '', GPlus AnyChar]]"

definition act_create_list :: "string list \<Rightarrow> error + string" where
  "act_create_list m =
     (case m of
        [g1] \<Rightarrow>
          Inr (''my_list = ['' @
               join '', '' (map (\<lambda>val. literal_of (strip val)) (split_on CHR '','' g1)) @
               '']'')
      | _ \<Rightarrow> Inl IndexError)"

text \<open>Pattern 5: \<^verbatim>\<open>append (.+) to list\<close>\<close>

definition pat_append :: pattern where
  "pat_append = [[Lit ''append '', GPlus AnyChar, Lit '' to list'']]"

definition act_append :: "string list \<Rightarrow> error + string" where
  "act_append m =
     (case m of
        [g1] \<Rightarrow>
          (if \<not> isdigit g1 then Inr (''my_list.append(\"'' @ g1 @ ''\")'')
           else Inr (''my_list.append('' @ g1 @ '')''))
      | _ \<Rightarrow> Inl IndexError)"

text \<open>Patterns 6 and 7: \<^verbatim>\<open>sort list\<close>, \<^verbatim>\<open>print list\<close>\<close>

definition pat_sort_list :: pattern where
  "pat_sort_list = [[Lit ''sort list'']]"

definition act_sort_list :: "string list \<Rightarrow> error + string" where
  "act_sort_list m = Inr ''my_list.sort()''"

definition pat_print_list :: pattern where
  "pat_print_list = [[Lit ''print list'']]"

definition act_print_list :: "string list \<Rightarrow> error + string" where
  "act_print_list m = Inr ''print(my_list)''"

text \<open>Pattern 8: \<^verbatim>\<open>square (\d+)\<close>\<close>

definition pat_square :: pattern where
  "pat_square = [[Lit ''square '', GPlus Digit]]"

definition act_square :: "string list \<Rightarrow> error + string" where
  "act_square m =
     (case m of [g1] \<Rightarrow> Inr (''print('' @ g1 @ '' ** 2)'') | _ \<Rightarrow> Inl IndexError)"

text \<open>Pattern 9: \<^verbatim>\<open>create string (.+)\<close>\<close>

definition pat_create_string :: pattern where
  "pat_create_string = [[Lit ''create string '', GPlus AnyChar]]"

definition act_create_string :: "string list \<Rightarrow> error + string" where
  "act_create_string m =
     (case m of [g1] \<Rightarrow> Inr (''my_string = \"'' @ g1 @ ''\"'') | _ \<Rightarrow> Inl IndexError)"

text \<open>Patterns 10 and 11: \<^verbatim>\<open>uppercase string\<close>, \<^verbatim>\<open>print string\<close>\<close>

definition pat_uppercase_string :: pattern where
  "pat_uppercase_string = [[Lit ''uppercase string'']]"

definition act_uppercase_string :: "string list \<Rightarrow> error + string" where
  "act_uppercase_string m = Inr ''my_string = my_string.upper()''"

definition pat_print_string :: pattern where
  "pat_print_string = [[Lit ''print string'']]"

definition act_print_string :: "string list \<Rightarrow> error + string" where
  "act_print_string m = Inr ''print(my_string)''"

text \<open>
  Pattern 12: \<^verbatim>\<open>create dictionary (.+)\<close>. The transformation unpacks
  \<^verbatim>\<open>pair.split(":")\<close> into \<^verbatim>\<open>key, val\<close>, which raises \<open>ValueError\<close> unless
  the split has exactly two parts.
\<close>

definition pat_create_dictionary :: pattern where
  "pat_create_dictionary = [[Lit ''create dictionary '', GPlus AnyChar]]"

fun dict_items :: "string list \<Rightarrow> error + string list" where
  "dict_items [] = Inr []"
| "dict_items (pair # pairs) =
     (case split_on CHR '':'' pair of
        [key, val] \<Rightarrow>
          (case dict_items pairs of
             Inl e \<Rightarrow> Inl e
           | Inr xs \<Rightarrow> Inr ((''\"'' @ strip key @ ''\": '' @ literal_of (strip val)) # xs))
      | _ \<Rightarrow> Inl ValueError)"

definition act_create_dictionary :: "string list \<Rightarrow> error + string" where
  "act_create_dictionary m =
     (case m of
        [g1] \<Rightarrow>
          (case dict_items (split_on CHR '','' g1) of
             Inl e \<Rightarrow> Inl e
           | Inr xs \<Rightarrow> Inr (''my_dict = {'' @ join '', '' xs @ ''}''))
      | _ \<Rightarrow> Inl IndexError)"

text \<open>Pattern 13: \<^verbatim>\<open>print dictionary\<close>\<close>

definition pat_print_dictionary :: pattern where
  "pat_print_dictionary = [[Lit ''print dictionary'']]"

definition act_print_dictionary :: "string list \<Rightarrow> error + string" where
  "act_print_dictionary m = Inr ''print(my_dict)''"

text \<open>Pattern 14: \<^verbatim>\<open>if (\w+) equals (\d+) then print (.+)\<close>\<close>

definition pat_if :: pattern where
  "pat_if =
     [[Lit ''if '', GPlus WordChar, Lit '' equals '', GPlus Digit, Lit '' then print '',
       GPlus AnyChar]]"

definition act_if :: "string list \<Rightarrow> error + string" where
  "act_if m =
     (case m of
        [g1, g2, g3] \<Rightarrow> Inr (''if '' @ g1 @ '' == '' @ g2 @ '': print(\"'' @ g3 @ ''\")'')
      | _ \<Rightarrow> Inl IndexError)"

text \<open>Pattern 15: \<^verbatim>\<open>loop list\<close>\<close>

definition pat_loop_list :: pattern where
  "pat_loop_list = [[Lit ''loop list'']]"

definition act_loop_list :: "string list \<Rightarrow> error + string" where
  "act_loop_list m = Inr ''for item in my_list:\<newline>    print(item)''"

text \<open>Pattern 16: \<^verbatim>\<open>ask input (.+)\<close>\<close>

definition pat_ask_input :: pattern where
  "pat_ask_input = [[Lit ''ask input '', GPlus AnyChar]]"

definition act_ask_input :: "string list \<Rightarrow> error + string" where
  "act_ask_input m =
     (case m of [g1] \<Rightarrow> Inr (''user_input = input(\"'' @ g1 @ ''\")'') | _ \<Rightarrow> Inl IndexError)"

text \<open>Pattern 17: \<^verbatim>\<open>help|show commands\<close>\<close>

definition pat_help :: pattern where
  "pat_help = [[Lit ''help''], [Lit ''show commands'']]"

definition help_text :: string where
  "help_text = join ''\<newline>''
     [''# Available commands:'',
      ''# print [text]  - Print any text'',
      ''# print numbers from X to Y - Print range of numbers'',
      ''# add/subtract/multiply/divide X and Y - Math operations'',
      ''# create list X,Y,Z - Create a list'',
      ''# append X to list - Add to list'',
      ''# sort list - Sort the list'',
      ''# print list - Print the list'',
      ''# square X - Square a number'',
      ''# create string X - Create a string'',
      ''# uppercase string - Convert to uppercase'',
      ''# print string - Print the string'',
      ''# create dictionary key:value - Create dictionary'',
      ''# print dictionary - Print dictionary'',
      ''# if X equals Y then print Z - Simple if statement'',
      ''# loop list - Loop through list'',
      ''# ask input [message] - Get user input'',
      ''# help - Show this message'']"

definition act_help :: "string list \<Rightarrow> error + string" where
  "act_help m = Inr help_text"

definition rules :: "rule list" where
  "rules =
     [(pat_print_text, act_print_text),
      (pat_print_numbers, act_print_numbers),
      (pat_arith, act_arith),
      (pat_create_list, act_create_list),
      (pat_append, act_append),
      (pat_sort_list, act_sort_list),
      (pat_print_list, act_print_list),
      (pat_square, act_square),
      (pat_create_string, act_create_string),
      (pat_uppercase_string, act_uppercase_string),
      (pat_print_string, act_print_string),
      (pat_create_dictionary, act_create_dictionary),
      (pat_print_dictionary, act_print_dictionary),
      (pat_if, act_if),
      (pat_loop_list, act_loop_list),
      (pat_ask_input, act_ask_input),
      (pat_help, act_help)]"

section \<open>The translation functions\<close>

definition sentinel :: string where
  "sentinel = ''# I don't understand. Type 'help' for available commands.''"

text \<open>
  The matching loop of \<^verbatim>\<open>generate_python_code\<close>: the rules in order, the first
  whose trigger matches the whole instruction is applied; \<open>first_match\<close> is the same
  loop, returning the rule it stops at and the groups of the match.
\<close>

fun first_match :: "rule list \<Rightarrow> string \<Rightarrow> (rule \<times> string list) option" where
  "first_match [] instruction = None"
| "first_match (r # rs) instruction =
     (case fullmatch (fst r) instruction of
        Some m \<Rightarrow> Some (r, m)
      | None \<Rightarrow> first_match rs instruction)"

fun apply_rules :: "rule list \<Rightarrow> string \<Rightarrow> error + string" where
  "apply_rules [] instruction = Inr sentinel"
| "apply_rules ((pattern, action) # rs) instruction =
     (case fullmatch pattern instruction of
        Some m \<Rightarrow> action m
      | None \<Rightarrow> apply_rules rs instruction)"

definition normalize :: "string \<Rightarrow> string" where
  "normalize instruction = strip (lower instruction)"

text \<open>
  The body of \<^verbatim>\<open>generate_python_code\<close> of the full version, with the rule table as
  a parameter; the function itself is the body at the table \<open>rules\<close>.
\<close>

definition generate_with :: "rule list \<Rightarrow> string \<Rightarrow> error + string" where
  "generate_with rs instruction =
     (let instruction = normalize instruction
      in if instruction = [] then Inr ''# Please enter an instruction''
         else apply_rules rs instruction)"

definition generate_python_code :: "string \<Rightarrow> error + string" where
  "generate_python_code instruction = generate_with rules instruction"

text \<open>
  \<^verbatim>\<open>generate_python_code\<close> of the minimal version: no stripping, \<^verbatim>\<open>re.search\<close>
  instead of \<^verbatim>\<open>re.fullmatch\<close>, the range rule before the free-text rule, and a
  marker of its own.
\<close>

definition generate_python_code_minimal :: "string \<Rightarrow> error + string" where
  "generate_python_code_minimal instruction =
     (let instruction = lower instruction
      in case search pat_print_numbers instruction of
           Some m \<Rightarrow>
             (case m of
                [start, stop] \<Rightarrow>
                  (case int_of stop of
                     Inl e \<Rightarrow> Inl e
                   | Inr n \<Rightarrow>
                       (case format_int (n + 1) of
                          Inl e \<Rightarrow> Inl e
                        | Inr b \<Rightarrow>
                            Inr (''for i in range('' @ start @ '', '' @ b
                                 @ ''):\<newline>    print(i)'')))
              | _ \<Rightarrow> Inl IndexError)
         | None \<Rightarrow>
             (case search pat_print_text instruction of
                Some m \<Rightarrow>
                  (case m of
                     [message] \<Rightarrow> Inr (''print(\"'' @ message @ ''\")'')
                   | _ \<Rightarrow> Inl IndexError)
              | None \<Rightarrow> Inr ''# Instruction not recognized''))"

section \<open>What it means for a string to satisfy a trigger\<close>

text \<open>
  The declarative reading of a pattern, against which the matcher is checked: an item
  accepts a word, a sequence of items accepts the concatenation of words its items
  accept, and a pattern is satisfied by a string that one of its alternatives accepts
  as a whole. \<open>groups_of\<close> lists the words of the capture groups.
\<close>

fun item_accepts :: "item \<Rightarrow> string \<Rightarrow> bool" where
  "item_accepts (Lit l) w = (w = l)"
| "item_accepts (GPlus c) w = (w \<noteq> [] \<and> list_all (in_class c) w)"
| "item_accepts (GAlt ls) w = (w \<in> set ls)"

fun item_groups :: "item \<Rightarrow> string \<Rightarrow> string list" where
  "item_groups (Lit l) w = []"
| "item_groups (GPlus c) w = [w]"
| "item_groups (GAlt ls) w = [w]"

fun groups_of :: "item list \<Rightarrow> string list \<Rightarrow> string list" where
  "groups_of (i # is) (w # ws) = item_groups i w @ groups_of is ws"
| "groups_of _ _ = []"

definition satisfies :: "pattern \<Rightarrow> string \<Rightarrow> bool" where
  "satisfies p s = (\<exists>alt ws. alt \<in> set p \<and> list_all2 item_accepts alt ws \<and> concat ws = s)"

section \<open>The matcher against the declarative reading\<close>

lemma after_prefix_iff: "after_prefix l s = Some r \<longleftrightarrow> s = l @ r"
  by (induction l s rule: after_prefix.induct) auto

lemma after_prefix_append [simp]: "after_prefix l (l @ r) = Some r"
  by (simp add: after_prefix_iff)

lemma plus_splits_iff:
  "(u, r) \<in> set (plus_splits P s) \<longleftrightarrow> u \<noteq> [] \<and> s = u @ r \<and> list_all P u"
proof (induction s arbitrary: u)
  case Nil
  then show ?case by simp
next
  case (Cons x xs)
  show ?case
  proof (cases u)
    case Nil
    then show ?thesis using Cons by auto
  next
    case (Cons y ys)
    then show ?thesis using Cons.IH [of ys]
      by (cases ys) auto
  qed
qed

lemma after_prefix_None_iff: "after_prefix l s = None \<longleftrightarrow> (\<forall>r. s \<noteq> l @ r)"
  by (induction l s rule: after_prefix.induct) auto

lemma alt_splits_iff: "(u, r) \<in> set (alt_splits ls s) \<longleftrightarrow> u \<in> set ls \<and> s = u @ r"
proof (induction ls)
  case Nil
  then show ?case by simp
next
  case (Cons l ls)
  show ?case
  proof (cases "after_prefix l s")
    case None
    then have "\<forall>r. s \<noteq> l @ r" by (simp add: after_prefix_None_iff)
    with None Cons show ?thesis by auto
  next
    case (Some r')
    then have "s = l @ r'" by (simp add: after_prefix_iff)
    with Some Cons show ?thesis by auto
  qed
qed

lemma match_item_iff:
  "(g, r) \<in> set (match_item i s) \<longleftrightarrow>
     (\<exists>w. item_accepts i w \<and> s = w @ r \<and> g = item_groups i w)"
proof (cases i)
  case (Lit l)
  show ?thesis
  proof (cases "after_prefix l s")
    case None
    then have "\<forall>r. s \<noteq> l @ r" by (simp add: after_prefix_None_iff)
    with None Lit show ?thesis by auto
  next
    case (Some r')
    then have "s = l @ r'" by (simp add: after_prefix_iff)
    with Some Lit show ?thesis by auto
  qed
next
  case (GPlus c)
  have "(g, r) \<in> set (match_item (GPlus c) s) \<longleftrightarrow>
      (\<exists>u. (u, r) \<in> set (plus_splits (in_class c) s) \<and> g = [u])"
    by auto
  then show ?thesis using GPlus by (auto simp: plus_splits_iff)
next
  case (GAlt ls)
  have "(g, r) \<in> set (match_item (GAlt ls) s) \<longleftrightarrow>
      (\<exists>u. (u, r) \<in> set (alt_splits ls s) \<and> g = [u])"
    by auto
  then show ?thesis using GAlt by (auto simp: alt_splits_iff)
qed

lemma match_seq_iff:
  "(gs, r) \<in> set (match_seq is s) \<longleftrightarrow>
     (\<exists>ws. list_all2 item_accepts is ws \<and> s = concat ws @ r \<and> gs = groups_of is ws)"
proof (induction "is" arbitrary: s gs)
  case Nil
  then show ?case by auto
next
  case (Cons i "is")
  show ?case
  proof
    assume "(gs, r) \<in> set (match_seq (i # is) s)"
    then obtain g r1 gs1 where 1: "(g, r1) \<in> set (match_item i s)"
      and 2: "(gs1, r) \<in> set (match_seq is r1)" and 3: "gs = g @ gs1"
      by auto
    from 1 obtain w where w: "item_accepts i w" "s = w @ r1" "g = item_groups i w"
      by (auto simp: match_item_iff)
    from 2 obtain ws where ws: "list_all2 item_accepts is ws" "r1 = concat ws @ r"
      "gs1 = groups_of is ws"
      by (auto simp: Cons.IH)
    have "list_all2 item_accepts (i # is) (w # ws) \<and> s = concat (w # ws) @ r
        \<and> gs = groups_of (i # is) (w # ws)"
      using w ws 3 by simp
    then show "\<exists>ws. list_all2 item_accepts (i # is) ws \<and> s = concat ws @ r
        \<and> gs = groups_of (i # is) ws"
      by blast
  next
    assume "\<exists>ws. list_all2 item_accepts (i # is) ws \<and> s = concat ws @ r
        \<and> gs = groups_of (i # is) ws"
    then obtain ws0 where a: "list_all2 item_accepts (i # is) ws0" "s = concat ws0 @ r"
      "gs = groups_of (i # is) ws0"
      by blast
    then obtain w ws where ws0: "ws0 = w # ws" and w: "item_accepts i w"
      and ws: "list_all2 item_accepts is ws"
      by (auto simp: list_all2_Cons1)
    have 1: "(item_groups i w, concat ws @ r) \<in> set (match_item i s)"
      using a ws0 w by (auto simp: match_item_iff)
    have 2: "(groups_of is ws, r) \<in> set (match_seq is (concat ws @ r))"
      using ws by (auto simp: Cons.IH)
    show "(gs, r) \<in> set (match_seq (i # is) s)"
      using 1 2 a ws0 by force
  qed
qed

lemma match_seq_Nil_iff: "(gs, r) \<in> set (match_seq [] s) \<longleftrightarrow> gs = [] \<and> r = s"
  by auto

lemma match_seq_Cons_iff:
  "(gs, r) \<in> set (match_seq (i # is) s) \<longleftrightarrow>
     (\<exists>w s' gs'. item_accepts i w \<and> s = w @ s' \<and> gs = item_groups i w @ gs'
        \<and> (gs', r) \<in> set (match_seq is s'))"
proof -
  have "(gs, r) \<in> set (match_seq (i # is) s) \<longleftrightarrow>
      (\<exists>g s' gs'. (g, s') \<in> set (match_item i s) \<and> gs = g @ gs'
         \<and> (gs', r) \<in> set (match_seq is s'))"
    by force
  then show ?thesis
    by (simp add: match_item_iff) blast
qed

lemma match_single_iff:
  "(gs, r) \<in> set (match_pattern [alt] s) \<longleftrightarrow> (gs, r) \<in> set (match_seq alt s)"
  by (simp add: match_pattern_def)

lemmas match_unfold = match_single_iff match_seq_Cons_iff match_seq_Nil_iff

lemma match_pattern_iff:
  "(gs, r) \<in> set (match_pattern p s) \<longleftrightarrow>
     (\<exists>alt ws. alt \<in> set p \<and> list_all2 item_accepts alt ws \<and> s = concat ws @ r
        \<and> gs = groups_of alt ws)"
  by (auto simp: match_pattern_def match_seq_iff)

lemma fullmatch_SomeD:
  "fullmatch p s = Some gs \<Longrightarrow> (gs, []) \<in> set (match_pattern p s)"
  by (auto simp: fullmatch_def find_Some_iff)  (metis nth_mem)

lemma fullmatch_None_iff:
  "fullmatch p s = None \<longleftrightarrow> (\<forall>gs. (gs, []) \<notin> set (match_pattern p s))"
  by (auto simp: fullmatch_def find_None_iff)

lemma fullmatch_satisfies: "fullmatch p s \<noteq> None \<longleftrightarrow> satisfies p s"
  by (auto simp: fullmatch_None_iff match_pattern_iff satisfies_def)

section \<open>The triggers of the rule table\<close>

lemma fullmatch_eqI:
  assumes "(g0, []) \<in> set (match_pattern p s)"
    and "\<And>gs. (gs, []) \<in> set (match_pattern p s) \<Longrightarrow> gs = g0"
  shows "fullmatch p s = Some g0"
proof (cases "fullmatch p s")
  case None
  with assms(1) show ?thesis by (simp add: fullmatch_None_iff)
next
  case (Some gs)
  then have "(gs, []) \<in> set (match_pattern p s)" by (rule fullmatch_SomeD)
  then have "gs = g0" by (rule assms(2))
  with Some show ?thesis by simp
qed

lemma match_print_text:
  "(gs, []) \<in> set (match_pattern pat_print_text s) \<longleftrightarrow>
     (\<exists>w. s = ''print '' @ w \<and> w \<noteq> [] \<and> list_all (in_class AnyChar) w \<and> gs = [w])"
  by (auto simp: match_unfold pat_print_text_def simp del: match_seq.simps)

lemma fullmatch_print_text:
  assumes "w \<noteq> []" and "CHR 0x0A \<notin> set w"
  shows "fullmatch pat_print_text (''print '' @ w) = Some [w]"
proof (rule fullmatch_eqI)
  have "list_all (in_class AnyChar) w"
    using assms(2) by (auto simp: list_all_iff)
  with assms(1) show "([w], []) \<in> set (match_pattern pat_print_text (''print '' @ w))"
    by (simp add: match_print_text)
next
  fix gs
  assume "(gs, []) \<in> set (match_pattern pat_print_text (''print '' @ w))"
  then show "gs = [w]" by (auto simp: match_print_text)
qed

lemma first_match_SomeD:
  "first_match rs i = Some (r, m) \<Longrightarrow> r \<in> set rs \<and> fullmatch (fst r) i = Some m"
  by (induction rs) (auto split: option.splits)

lemma apply_rules_first_match:
  "apply_rules rs i = (case first_match rs i of None \<Rightarrow> Inr sentinel | Some (r, m) \<Rightarrow> snd r m)"
  by (induction rs i rule: apply_rules.induct) (auto split: option.splits)

lemma match_print_numbers:
  "(gs, []) \<in> set (match_pattern pat_print_numbers s) \<longleftrightarrow>
     (\<exists>a b. s = ''print numbers from '' @ a @ '' to '' @ b \<and> decimal_digits a
        \<and> decimal_digits b \<and> gs = [a, b])"
  by (auto simp: match_unfold pat_print_numbers_def decimal_digits_def list_all_iff
      simp del: match_seq.simps)

lemma is_digit_not_newline: "is_digit c \<Longrightarrow> c \<noteq> CHR 0x0A"
  by (auto simp: is_digit_def)

lemma shadow_print_numbers:
  assumes "fullmatch pat_print_numbers s = Some m"
  shows "fullmatch pat_print_text s \<noteq> None"
proof -
  from assms have "(m, []) \<in> set (match_pattern pat_print_numbers s)"
    by (rule fullmatch_SomeD)
  then obtain a b where s: "s = ''print numbers from '' @ a @ '' to '' @ b"
    and d: "decimal_digits a" "decimal_digits b"
    by (auto simp: match_print_numbers)
  have "CHR 0x0A \<notin> set (''numbers from '' @ a @ '' to '' @ b)"
    using d by (auto simp: decimal_digits_def list_all_iff dest: is_digit_not_newline)
  then have "fullmatch pat_print_text (''print '' @ (''numbers from '' @ a @ '' to '' @ b))
      = Some [''numbers from '' @ a @ '' to '' @ b]"
    by (intro fullmatch_print_text) simp_all
  with s show ?thesis by simp
qed

lemma after_prefix_self [simp]: "after_prefix l l = Some []"
  by (simp add: after_prefix_iff)

lemma fullmatch_literal:
  "fullmatch [[Lit l]] s = Some m \<longleftrightarrow> s = l \<and> m = []"
  by (auto simp: fullmatch_def match_pattern_def after_prefix_iff split: option.splits)

lemma shadow_print_list: "fullmatch pat_print_list s = Some m \<Longrightarrow> fullmatch pat_print_text s \<noteq> None"
  using fullmatch_print_text [of "''list''"]
  by (simp add: pat_print_list_def fullmatch_literal)

lemma shadow_print_string: "fullmatch pat_print_string s = Some m \<Longrightarrow> fullmatch pat_print_text s \<noteq> None"
  using fullmatch_print_text [of "''string''"]
  by (simp add: pat_print_string_def fullmatch_literal)

lemma shadow_print_dictionary: "fullmatch pat_print_dictionary s = Some m \<Longrightarrow> fullmatch pat_print_text s \<noteq> None"
  using fullmatch_print_text [of "''dictionary''"]
  by (simp add: pat_print_dictionary_def fullmatch_literal)

lemma first_match_print_text:
  "fullmatch pat_print_text i = Some m \<Longrightarrow>
     first_match rules i = Some ((pat_print_text, act_print_text), m)"
  by (simp add: rules_def)

lemma pat_print_text_distinct:
  "pat_print_text \<noteq> pat_print_numbers" "pat_print_text \<noteq> pat_print_list"
  "pat_print_text \<noteq> pat_print_string" "pat_print_text \<noteq> pat_print_dictionary"
  by (simp_all add: pat_print_text_def pat_print_numbers_def pat_print_list_def
      pat_print_string_def pat_print_dictionary_def)

lemma shadowed_never_selected:
  assumes "first_match rules i = Some (r, m)"
  shows "fst r \<notin> {pat_print_numbers, pat_print_list, pat_print_string, pat_print_dictionary}"
proof
  assume sel: "fst r \<in> {pat_print_numbers, pat_print_list, pat_print_string, pat_print_dictionary}"
  from assms have fm: "fullmatch (fst r) i = Some m"
    by (simp add: first_match_SomeD)
  from sel fm have "fullmatch pat_print_text i \<noteq> None"
    by (auto dest: shadow_print_numbers shadow_print_list shadow_print_string
        shadow_print_dictionary)
  then obtain m' where "fullmatch pat_print_text i = Some m'" by auto
  then have "first_match rules i = Some ((pat_print_text, act_print_text), m')"
    by (rule first_match_print_text)
  with assms have "fst r = pat_print_text" by auto
  with sel show False using pat_print_text_distinct by auto
qed

lemma generate_print_text:
  assumes "normalize s = ''print '' @ rest" and "rest \<noteq> []" and "CHR 0x0A \<notin> set rest"
  shows "generate_python_code s = Inr (''print(\"'' @ rest @ ''\")'')"
proof -
  have "fullmatch pat_print_text (''print '' @ rest) = Some [rest]"
    using assms(2,3) by (rule fullmatch_print_text)
  then have "fullmatch pat_print_text (normalize s) = Some [rest]"
    by (simp only: assms(1))
  then have "apply_rules rules (normalize s) = act_print_text [rest]"
    by (simp add: rules_def)
  then show ?thesis
    using assms(1) by (simp add: generate_python_code_def generate_with_def act_print_text_def)
qed

lemma apply_rules_no_match:
  "list_all (\<lambda>r. fullmatch (fst r) i = None) rs \<Longrightarrow> apply_rules rs i = Inr sentinel"
  by (induction rs i rule: apply_rules.induct) auto

lemma is_space_lower_char [simp]: "is_space (lower_char c) = is_space c"
proof (cases "map_of (zip upper_chars lower_chars) c")
  case None
  then show ?thesis by (simp add: lower_char_def)
next
  case (Some d)
  then have "(c, d) \<in> set (zip upper_chars lower_chars)"
    by (rule map_of_SomeD)
  then have "\<not> is_space c \<and> \<not> is_space d"
    by (auto simp: is_space_def upper_chars_def lower_chars_def)
  with Some show ?thesis by (simp add: lower_char_def)
qed

lemma strip_eq_Nil_iff: "strip s = [] \<longleftrightarrow> list_all is_space s"
proof
  assume "strip s = []"
  then have all: "\<forall>x\<in>set (dropWhile is_space s). is_space x"
    by (simp add: strip_def dropWhile_eq_Nil_conv)
  have "dropWhile is_space s = []"
  proof (rule ccontr)
    assume ne: "dropWhile is_space s \<noteq> []"
    then have "\<not> is_space (hd (dropWhile is_space s))" by (rule hd_dropWhile)
    moreover from ne have "hd (dropWhile is_space s) \<in> set (dropWhile is_space s)" by simp
    ultimately show False using all by blast
  qed
  then show "list_all is_space s"
    by (simp add: dropWhile_eq_Nil_conv list_all_iff)
next
  assume "list_all is_space s"
  then have "dropWhile is_space s = []"
    by (induction s) auto
  then show "strip s = []" by (simp add: strip_def del: dropWhile_eq_Nil_conv)
qed

lemma normalize_eq_Nil_iff: "normalize s = [] \<longleftrightarrow> list_all is_space s"
  by (simp add: normalize_def strip_eq_Nil_iff lower_def list_all_iff)

lemma split_on_not_Nil [simp]: "split_on c s \<noteq> []"
  by (induction s) (auto split: list.splits)

lemma length_split_on: "length (split_on c s) = Suc (count_list s c)"
  by (induction s) (auto split: list.splits)

lemma dict_items_malformed:
  "list_ex (\<lambda>pair. count_list pair CHR '':'' \<noteq> 1) pairs \<Longrightarrow> dict_items pairs = Inl ValueError"
proof (induction pairs)
  case Nil
  then show ?case by simp
next
  case (Cons pair pairs)
  show ?case
  proof (cases "count_list pair CHR '':'' = 1")
    case True
    with Cons.prems have "list_ex (\<lambda>pair. count_list pair CHR '':'' \<noteq> 1) pairs" by simp
    then have "dict_items pairs = Inl ValueError" by (rule Cons.IH)
    then show ?thesis
      by (simp split: list.splits)
  next
    case False
    then have "length (split_on CHR '':'' pair) \<noteq> 2"
      by (simp add: length_split_on)
    then show ?thesis
      by (auto split: list.splits)
  qed
qed

lemma match_create_dictionary:
  "(gs, []) \<in> set (match_pattern pat_create_dictionary s) \<longleftrightarrow>
     (\<exists>w. s = ''create dictionary '' @ w \<and> w \<noteq> [] \<and> list_all (in_class AnyChar) w
        \<and> gs = [w])"
  by (auto simp: match_unfold pat_create_dictionary_def simp del: match_seq.simps)

lemma no_match_before_create_dictionary:
  "fullmatch pat_print_text (''create dictionary '' @ w) = None"
  "fullmatch pat_print_numbers (''create dictionary '' @ w) = None"
  "fullmatch pat_arith (''create dictionary '' @ w) = None"
  "fullmatch pat_create_list (''create dictionary '' @ w) = None"
  "fullmatch pat_append (''create dictionary '' @ w) = None"
  "fullmatch pat_sort_list (''create dictionary '' @ w) = None"
  "fullmatch pat_print_list (''create dictionary '' @ w) = None"
  "fullmatch pat_square (''create dictionary '' @ w) = None"
  "fullmatch pat_create_string (''create dictionary '' @ w) = None"
  "fullmatch pat_uppercase_string (''create dictionary '' @ w) = None"
  "fullmatch pat_print_string (''create dictionary '' @ w) = None"
  by (simp_all add: fullmatch_def match_pattern_def pat_print_text_def pat_print_numbers_def
      pat_arith_def pat_create_list_def pat_append_def pat_sort_list_def pat_print_list_def
      pat_square_def pat_create_string_def pat_uppercase_string_def pat_print_string_def)

lemma apply_rules_create_dictionary:
  assumes "fullmatch pat_create_dictionary i = Some m"
  shows "apply_rules rules i = act_create_dictionary m"
proof -
  from assms have "(m, []) \<in> set (match_pattern pat_create_dictionary i)"
    by (rule fullmatch_SomeD)
  then obtain w where i: "i = ''create dictionary '' @ w"
    by (auto simp: match_create_dictionary)
  show ?thesis
    using assms unfolding i rules_def
    by (simp only: apply_rules.simps no_match_before_create_dictionary option.case)
qed

lemma match_arith:
  "(gs, []) \<in> set (match_pattern pat_arith s) \<longleftrightarrow>
     (\<exists>op a b. op \<in> set [''add'', ''subtract'', ''multiply'', ''divide'']
        \<and> s = op @ '' '' @ a @ '' and '' @ b \<and> decimal_digits a \<and> decimal_digits b
        \<and> gs = [op, a, b])"
  by (auto simp: match_unfold pat_arith_def decimal_digits_def list_all_iff
      simp del: match_seq.simps)

lemma no_match_before_arith:
  assumes "op \<in> set [''add'', ''subtract'', ''multiply'', ''divide'']"
  shows "fullmatch pat_print_text (op @ w) = None"
    and "fullmatch pat_print_numbers (op @ w) = None"
  using assms
  by (auto simp: fullmatch_def match_pattern_def pat_print_text_def pat_print_numbers_def)

lemma apply_rules_arith:
  assumes "fullmatch pat_arith i = Some m"
  shows "apply_rules rules i = act_arith m"
proof -
  from assms have "(m, []) \<in> set (match_pattern pat_arith i)"
    by (rule fullmatch_SomeD)
  then obtain op w where op: "op \<in> set [''add'', ''subtract'', ''multiply'', ''divide'']"
    and i: "i = op @ w"
    by (auto simp: match_arith)
  show ?thesis
    using assms no_match_before_arith [OF op, of w] unfolding i rules_def
    by (simp only: apply_rules.simps option.case)
qed

section \<open>Searching and stripping\<close>

lemma plus_splits_first:
  "xs \<noteq> [] \<Longrightarrow> P (hd xs) \<Longrightarrow> \<exists>tl. plus_splits P xs = (takeWhile P xs, dropWhile P xs) # tl"
proof (induction xs)
  case Nil
  then show ?case by simp
next
  case (Cons x xs)
  then have x: "P x" by simp
  show ?case
  proof (cases "xs \<noteq> [] \<and> P (hd xs)")
    case True
    with Cons.IH obtain tl where "plus_splits P xs = (takeWhile P xs, dropWhile P xs) # tl"
      by blast
    with x show ?thesis by simp
  next
    case False
    then have "plus_splits P xs = []" by (cases xs) auto
    moreover from False have "takeWhile P xs = []" "dropWhile P xs = xs"
      by (cases xs; simp)+
    ultimately show ?thesis using x by simp
  qed
qed

lemma match_print_text_first:
  assumes "w \<noteq> []" and "CHR 0x0A \<notin> set w"
  shows "\<exists>tl. match_pattern pat_print_text (''print '' @ w @ t)
     = ([w @ takeWhile (\<lambda>c. c \<noteq> CHR 0x0A) t], dropWhile (\<lambda>c. c \<noteq> CHR 0x0A) t) # tl"
proof -
  let ?P = "\<lambda>c. c \<noteq> CHR 0x0A"
  have P: "in_class AnyChar = ?P" by (rule ext) simp
  have all: "\<forall>c\<in>set w. ?P c" using assms(2) by auto
  have ne: "w @ t \<noteq> []" using assms(1) by simp
  have "hd (w @ t) = hd w" using assms(1) by simp
  moreover have "hd w \<in> set w" using assms(1) by simp
  ultimately have h: "?P (hd (w @ t))" using all by metis
  have "\<exists>tl. plus_splits ?P (w @ t) = (takeWhile ?P (w @ t), dropWhile ?P (w @ t)) # tl"
    using ne h by (rule plus_splits_first)
  then obtain tl where tl: "plus_splits ?P (w @ t)
      = (takeWhile ?P (w @ t), dropWhile ?P (w @ t)) # tl" ..
  have tw: "takeWhile ?P (w @ t) = w @ takeWhile ?P t"
    by (rule takeWhile_append2) (use all in blast)
  have dw: "dropWhile ?P (w @ t) = dropWhile ?P t"
    by (rule dropWhile_append2) (use all in blast)
  from tl tw dw show ?thesis
    by (simp add: match_pattern_def pat_print_text_def P)
qed

lemma is_space_not_p: "is_space c \<Longrightarrow> c \<noteq> CHR ''p''"
  by (auto simp: is_space_def)

lemma search_print_text:
  assumes "list_all is_space ws" and "w \<noteq> []" and "CHR 0x0A \<notin> set w"
  shows "search pat_print_text (ws @ ''print '' @ w @ t)
     = Some [w @ takeWhile (\<lambda>c. c \<noteq> CHR 0x0A) t]"
  using assms(1)
proof (induction ws)
  case Nil
  from match_print_text_first [OF assms(2,3), of t]
  obtain tl where "match_pattern pat_print_text (''print '' @ w @ t)
     = ([w @ takeWhile (\<lambda>c. c \<noteq> CHR 0x0A) t], dropWhile (\<lambda>c. c \<noteq> CHR 0x0A) t) # tl" ..
  then show ?case by simp
next
  case (Cons c ws)
  then have "c \<noteq> CHR ''p''" by (simp add: is_space_not_p)
  then have "match_pattern pat_print_text (c # ws @ ''print '' @ w @ t) = []"
    by (simp add: match_pattern_def pat_print_text_def)
  with Cons show ?case by simp
qed

lemma strip_decomp:
  assumes "strip x \<noteq> []"
  shows "x = takeWhile is_space x @ strip x @ rev (takeWhile is_space (rev x))"
proof -
  let ?y = "dropWhile is_space x"
  have x: "x = takeWhile is_space x @ ?y" by simp
  have d: "dropWhile is_space (rev ?y) \<noteq> []"
    using assms by (simp add: strip_def)
  have y: "?y = strip x @ rev (takeWhile is_space (rev ?y))"
    unfolding strip_def by (metis rev_append rev_rev_ident takeWhile_dropWhile_id)
  from d obtain c where c: "c \<in> set (rev ?y)" "\<not> is_space c"
    by (metis dropWhile_eq_Nil_conv)
  have "rev x = rev ?y @ rev (takeWhile is_space x)"
    by (metis x rev_append)
  then have "takeWhile is_space (rev x) = takeWhile is_space (rev ?y)"
    using c by (simp add: takeWhile_append1)
  with x y show ?thesis by metis
qed

lemma upper_not_space:
  assumes "map_of (zip upper_chars lower_chars) c = Some d"
  shows "\<not> is_space c"
proof -
  from assms have "(c, d) \<in> set (zip upper_chars lower_chars)"
    by (rule map_of_SomeD)
  then have "c \<in> set upper_chars" by (rule set_zip_leftD)
  then show ?thesis
    by (auto simp: upper_chars_def is_space_def)
qed

lemma lower_char_space: "is_space c \<Longrightarrow> lower_char c = c"
proof (cases "map_of (zip upper_chars lower_chars) c")
  case None
  then show ?thesis by (simp add: lower_char_def)
next
  case (Some d)
  assume "is_space c"
  with Some show ?thesis using upper_not_space by blast
qed

lemma trailing_lower:
  "rev (takeWhile is_space (rev (lower s))) = rev (takeWhile is_space (rev s))"
proof -
  have "takeWhile is_space (rev (lower s)) = takeWhile is_space (map lower_char (rev s))"
    by (simp add: lower_def rev_map)
  also have "\<dots> = map lower_char (takeWhile (is_space \<circ> lower_char) (rev s))"
    by (rule takeWhile_map)
  also have "is_space \<circ> lower_char = is_space"
    by (rule ext) simp
  also have "map lower_char (takeWhile is_space (rev s)) = takeWhile is_space (rev s)"
    by (rule map_idI) (auto dest: set_takeWhileD lower_char_space)
  finally show ?thesis by simp
qed

lemma minimal_print_text:
  assumes "search pat_print_numbers (lower s) = None"
    and "search pat_print_text (lower s) = Some [w]"
  shows "generate_python_code_minimal s = Inr (''print(\"'' @ w @ ''\")'')"
  using assms by (simp add: generate_python_code_minimal_def)

section \<open>Splitting and the list rule\<close>







lemma is_digit_imp_like: "is_digit c \<Longrightarrow> is_digit_like c"
  unfolding is_digit_def is_digit_like_def set_append by (rule UnI1)

lemma decimal_digits_isdigit: "decimal_digits a \<Longrightarrow> isdigit a"
  unfolding decimal_digits_def isdigit_def list_all_iff
  using is_digit_imp_like by blast

section \<open>The claims\<close>

text \<open>
  C1. The specification asks that \<^verbatim>\<open>print list\<close> be answered by the fixed snippet
  \<^verbatim>\<open>print(my_list)\<close> of the zero-argument rule. In the rule table the free-text
  rule \<^verbatim>\<open>print (.+)\<close> stands first, so the full version returns the quoted print
  of the text \<^verbatim>\<open>list\<close>; the narrow rule, whose trigger matches and whose
  transformation would give the snippet, is not reached.
\<close>

theorem print_list_is_shadowed:
  "generate_python_code ''print list'' = Inr ''print(\"list\")''
   \<and> fullmatch pat_print_list ''print list'' = Some []
   \<and> act_print_list [] = Inr ''print(my_list)''"
  by code_simp

text \<open>
  C2. The specification asks that \<^verbatim>\<open>print numbers from 1 to 5\<close> give a loop whose
  upper bound is 6. The range rule would give it, but the free-text rule before it
  matches the instruction, and the full version returns a quoted print of
  \<^verbatim>\<open>numbers from 1 to 5\<close>.
\<close>

theorem print_numbers_is_shadowed:
  "generate_python_code ''print numbers from 1 to 5'' = Inr ''print(\"numbers from 1 to 5\")''
   \<and> fullmatch pat_print_numbers ''print numbers from 1 to 5'' = Some [''1'', ''5'']
   \<and> act_print_numbers [''1'', ''5''] = Inr ''for i in range(1, 6):\<newline>    print(i)''"
  by code_simp

text \<open>
  C3, as amended. When the normalized instruction is \<^verbatim>\<open>print \<close> followed by at
  least one character, none of them a newline, the full version returns the quoted print
  of the remainder, verbatim; and for no string at all does the matching loop stop at the
  rules for \<^verbatim>\<open>print numbers from X to Y\<close>, \<^verbatim>\<open>print list\<close>,
  \<^verbatim>\<open>print string\<close> or \<^verbatim>\<open>print dictionary\<close>. (The claim as stated allows
  any remainder; \<^verbatim>\<open>.\<close> does not match a newline, so a remainder with a newline
  inside is not matched by the free-text rule.)
\<close>

theorem print_text_rule_wins:
  "(normalize s = ''print '' @ rest \<and> rest \<noteq> [] \<and> CHR 0x0A \<notin> set rest \<longrightarrow>
      generate_python_code s = Inr (''print(\"'' @ rest @ ''\")''))
   \<and> (first_match rules i = Some (r, m) \<longrightarrow>
      fst r \<notin> {pat_print_numbers, pat_print_list, pat_print_string, pat_print_dictionary})"
  using generate_print_text [of s rest] shadowed_never_selected [of i r m] by blast

theorem print_text_rule_wins_witness:
  "normalize ''Print Hello World'' = ''print '' @ ''hello world''
   \<and> generate_python_code ''Print Hello World'' = Inr ''print(\"hello world\")''
   \<and> first_match rules ''print string'' = Some ((pat_print_text, act_print_text), [''string''])
   \<and> pat_print_text \<notin> {pat_print_numbers, pat_print_list, pat_print_string, pat_print_dictionary}"
proof -
  have 1: "normalize ''Print Hello World'' = ''print '' @ ''hello world''"
    by code_simp
  have 2: "''hello world'' \<noteq> [] \<and> CHR 0x0A \<notin> set ''hello world''"
    by simp
  have 3: "first_match rules ''print string'' = Some ((pat_print_text, act_print_text), [''string''])"
    by (simp add: rules_def fullmatch_def match_pattern_def pat_print_text_def)
  from print_text_rule_wins [of "''Print Hello World''" "''hello world''" "''print string''"
      "(pat_print_text, act_print_text)" "[''string'']"] 1 2 3
  show ?thesis by simp
qed

theorem print_text_newline_counterexample:
  "normalize ''print a\<newline>b'' = ''print '' @ ''a\<newline>b''
   \<and> ''a\<newline>b'' \<noteq> []
   \<and> generate_python_code ''print a\<newline>b''
       = Inr ''# I don't understand. Type 'help' for available commands.''
   \<and> generate_python_code ''print a\<newline>b'' \<noteq> Inr (''print(\"'' @ ''a\<newline>b'' @ ''\")'')"
  by code_simp

text \<open>
  C4, as amended. The minimal version is not a behavioural subset of the full version
  (it searches inside the instruction and does not strip it). For an instruction whose
  normalization wholly matches \<^verbatim>\<open>print (.+)\<close> with remainder \<open>w\<close>, and on
  which the range rule of the minimal version does not fire, the full version returns
  the quoted print of \<open>w\<close>, the minimal version the quoted print of \<open>w\<close> followed
  by the trailing whitespace of the instruction up to its first newline, and so the two
  return the same code exactly when that trailing whitespace is empty or begins with a
  newline.
\<close>

theorem minimal_agrees_on_free_text:
  assumes "fullmatch pat_print_text (normalize s) = Some [w]"
    and "search pat_print_numbers (lower s) = None"
  shows "generate_python_code s = Inr (''print(\"'' @ w @ ''\")'')
       \<and> generate_python_code_minimal s =
           Inr (''print(\"'' @ w
                @ takeWhile (\<lambda>c. c \<noteq> CHR 0x0A) (rev (takeWhile is_space (rev s))) @ ''\")'')
       \<and> (generate_python_code_minimal s = generate_python_code s \<longleftrightarrow>
           takeWhile (\<lambda>c. c \<noteq> CHR 0x0A) (rev (takeWhile is_space (rev s))) = [])"
proof -
  let ?t = "rev (takeWhile is_space (rev s))"
  from assms(1) have "([w], []) \<in> set (match_pattern pat_print_text (normalize s))"
    by (rule fullmatch_SomeD)
  then have n: "normalize s = ''print '' @ w" and w: "w \<noteq> []"
    "list_all (in_class AnyChar) w"
    by (auto simp: match_print_text)
  from w(2) have nl: "CHR 0x0A \<notin> set w" by (auto simp: list_all_iff)
  have "strip (lower s) \<noteq> []" using n by (simp add: normalize_def)
  then have "lower s = takeWhile is_space (lower s) @ strip (lower s)
      @ rev (takeWhile is_space (rev (lower s)))"
    by (rule strip_decomp)
  then have x: "lower s = takeWhile is_space (lower s) @ ''print '' @ w @ ?t"
    using n by (simp only: trailing_lower normalize_def append_assoc)
  have "list_all is_space (takeWhile is_space (lower s))"
    by (auto simp: list_all_iff dest: set_takeWhileD)
  then have "search pat_print_text (takeWhile is_space (lower s) @ ''print '' @ w @ ?t)
      = Some [w @ takeWhile (\<lambda>c. c \<noteq> CHR 0x0A) ?t]"
    using w(1) nl by (rule search_print_text)
  then have "search pat_print_text (lower s) = Some [w @ takeWhile (\<lambda>c. c \<noteq> CHR 0x0A) ?t]"
    using x by simp
  with assms(2) have 1: "generate_python_code_minimal s =
      Inr (''print(\"'' @ (w @ takeWhile (\<lambda>c. c \<noteq> CHR 0x0A) ?t) @ ''\")'')"
    by (rule minimal_print_text)
  have 2: "generate_python_code s = Inr (''print(\"'' @ w @ ''\")'')"
    using n w(1) nl by (rule generate_print_text)
  from 1 2 show ?thesis by simp
qed

theorem minimal_agrees_on_free_text_witness:
  "fullmatch pat_print_text (normalize ''  Print Hello\<newline> '') = Some [''hello'']
   \<and> search pat_print_numbers (lower ''  Print Hello\<newline> '') = None
   \<and> takeWhile (\<lambda>c. c \<noteq> CHR 0x0A) (rev (takeWhile is_space (rev ''  Print Hello\<newline> ''))) = []
   \<and> generate_python_code_minimal ''  Print Hello\<newline> '' = Inr ''print(\"hello\")''
   \<and> generate_python_code ''  Print Hello\<newline> '' = Inr ''print(\"hello\")''"
proof -
  have 1: "fullmatch pat_print_text (normalize ''  Print Hello\<newline> '') = Some [''hello'']"
    by code_simp
  have 2: "search pat_print_numbers (lower ''  Print Hello\<newline> '') = None"
    by code_simp
  have 3: "takeWhile (\<lambda>c. c \<noteq> CHR 0x0A)
      (rev (takeWhile is_space (rev ''  Print Hello\<newline> ''))) = []"
    by code_simp
  from minimal_agrees_on_free_text [OF 1 2] 1 2 3 show ?thesis by simp
qed

theorem minimal_not_subset_counterexample:
  "generate_python_code_minimal ''please print hello'' = Inr ''print(\"hello\")''
   \<and> ''print(\"hello\")'' \<noteq> ''# Instruction not recognized''
   \<and> generate_python_code ''please print hello''
       = Inr ''# I don't understand. Type 'help' for available commands.''"
  by code_simp

text \<open>
  C5. When the normalized instruction is not empty and the trigger of no rule of the
  table matches it, the full version returns the marker
  \<^verbatim>\<open># I don't understand. Type 'help' for available commands.\<close> as an ordinary
  result (\<open>Inr\<close>): nothing is raised.
\<close>

theorem unrecognized_returns_sentinel:
  assumes "normalize s \<noteq> []"
    and "list_all (\<lambda>r. fullmatch (fst r) (normalize s) = None) rules"
  shows "generate_python_code s = Inr ''# I don't understand. Type 'help' for available commands.''"
  using assms apply_rules_no_match [of "normalize s" rules]
  by (simp add: generate_python_code_def generate_with_def sentinel_def)

theorem unrecognized_returns_sentinel_witness:
  "normalize ''do a backflip'' \<noteq> []
   \<and> list_all (\<lambda>r. fullmatch (fst r) (normalize ''do a backflip'') = None) rules
   \<and> generate_python_code ''do a backflip''
       = Inr ''# I don't understand. Type 'help' for available commands.''"
proof -
  have 1: "normalize ''do a backflip'' \<noteq> []" by code_simp
  have 2: "list_all (\<lambda>r. fullmatch (fst r) (normalize ''do a backflip'') = None) rules"
    by code_simp
  from unrecognized_returns_sentinel [OF 1 2] 1 2 show ?thesis by blast
qed




text \<open>
  C7. When the normalized instruction matches \<^verbatim>\<open>create dictionary (.+)\<close> and one
  of the comma-separated pairs of the capture does not hold exactly one colon, the full
  version raises \<open>ValueError\<close> from inside the transformation: it returns neither the
  marker nor any code.
\<close>

theorem malformed_dictionary_raises:
  assumes "fullmatch pat_create_dictionary (normalize s) = Some [g]"
    and "list_ex (\<lambda>pair. count_list pair CHR '':'' \<noteq> 1) (split_on CHR '','' g)"
  shows "generate_python_code s = Inl ValueError"
proof -
  from assms(1) have ne: "normalize s \<noteq> []"
    by (auto dest!: fullmatch_SomeD simp: match_create_dictionary)
  from assms(1) have "apply_rules rules (normalize s) = act_create_dictionary [g]"
    by (rule apply_rules_create_dictionary)
  moreover have "dict_items (split_on CHR '','' g) = Inl ValueError"
    using assms(2) by (rule dict_items_malformed)
  ultimately show ?thesis
    using ne by (simp add: generate_python_code_def generate_with_def act_create_dictionary_def)
qed

theorem malformed_dictionary_raises_witness:
  "fullmatch pat_create_dictionary (normalize ''create dictionary name:john, age'')
     = Some [''name:john, age'']
   \<and> list_ex (\<lambda>pair. count_list pair CHR '':'' \<noteq> 1) (split_on CHR '','' ''name:john, age'')
   \<and> generate_python_code ''create dictionary name:john, age'' = Inl ValueError"
proof -
  have 1: "fullmatch pat_create_dictionary (normalize ''create dictionary name:john, age'')
     = Some [''name:john, age'']"
    by code_simp
  have 2: "list_ex (\<lambda>pair. count_list pair CHR '':'' \<noteq> 1)
     (split_on CHR '','' ''name:john, age'')"
    by code_simp
  from malformed_dictionary_raises [OF 1 2] 1 2 show ?thesis by blast
qed

text \<open>
  C8. Matching is whole-string. Whenever the matching loop stops at a rule, the whole
  instruction satisfies that rule's trigger; the result of the full version on a
  non-empty normalized instruction is the transformation of that rule, or the marker when
  the loop stops at none. \<^verbatim>\<open>please print hello\<close>, which has a part that satisfies
  \<^verbatim>\<open>print (.+)\<close>, is matched by no rule and gives the marker.
\<close>

theorem whole_string_matching:
  "(first_match rules i = Some (r, m) \<longrightarrow> satisfies (fst r) i)
   \<and> (normalize s \<noteq> [] \<longrightarrow>
        generate_python_code s =
          (case first_match rules (normalize s) of
             None \<Rightarrow> Inr ''# I don't understand. Type 'help' for available commands.''
           | Some (r, m) \<Rightarrow> snd r m))
   \<and> list_all (\<lambda>r. fullmatch (fst r) ''please print hello'' = None) rules
   \<and> generate_python_code ''please print hello''
       = Inr ''# I don't understand. Type 'help' for available commands.''"
proof -
  have 1: "first_match rules i = Some (r, m) \<longrightarrow> satisfies (fst r) i"
    using first_match_SomeD [of rules i r m] fullmatch_satisfies [of "fst r" i] by auto
  have 2: "normalize s \<noteq> [] \<longrightarrow>
        generate_python_code s =
          (case first_match rules (normalize s) of
             None \<Rightarrow> Inr ''# I don't understand. Type 'help' for available commands.''
           | Some (r, m) \<Rightarrow> snd r m)"
    by (simp add: generate_python_code_def generate_with_def apply_rules_first_match
        sentinel_def split: option.splits)
  have 3: "list_all (\<lambda>r. fullmatch (fst r) ''please print hello'' = None) rules"
    by code_simp
  have 4: "generate_python_code ''please print hello''
       = Inr ''# I don't understand. Type 'help' for available commands.''"
    by code_simp
  from 1 2 3 4 show ?thesis by blast
qed

theorem whole_string_matching_witness:
  "first_match rules ''print hello'' = Some ((pat_print_text, act_print_text), [''hello''])
   \<and> satisfies pat_print_text ''print hello''
   \<and> normalize ''print hello'' \<noteq> []
   \<and> generate_python_code ''print hello'' = act_print_text [''hello'']"
proof -
  have 1: "first_match rules ''print hello''
      = Some ((pat_print_text, act_print_text), [''hello''])"
    by (simp add: rules_def fullmatch_def match_pattern_def pat_print_text_def)
  have 2: "normalize ''print hello'' = ''print hello''" by code_simp
  from whole_string_matching [of "''print hello''" "(pat_print_text, act_print_text)"
      "[''hello'']" "''print hello''"] 1 2
  show ?thesis by simp
qed

text \<open>
  C9. An instruction that is empty or consists of whitespace only is empty after
  normalization, and the result is then \<^verbatim>\<open># Please enter an instruction\<close>
  whatever the rule table is: the table is not consulted.
\<close>

theorem empty_instruction:
  assumes "list_all is_space s"
  shows "normalize s = []
       \<and> generate_with rs s = Inr ''# Please enter an instruction''
       \<and> generate_python_code s = Inr ''# Please enter an instruction''"
  using assms
  by (simp add: normalize_eq_Nil_iff generate_python_code_def generate_with_def)

theorem empty_instruction_witness:
  "list_all is_space [CHR 0x20, CHR 0x09, CHR 0xA0]
   \<and> normalize [CHR 0x20, CHR 0x09, CHR 0xA0] = []
   \<and> generate_with [] [CHR 0x20, CHR 0x09, CHR 0xA0] = Inr ''# Please enter an instruction''
   \<and> generate_python_code [CHR 0x20, CHR 0x09, CHR 0xA0]
       = Inr ''# Please enter an instruction''"
proof -
  have 1: "list_all is_space [CHR 0x20, CHR 0x09, CHR 0xA0]" by code_simp
  from empty_instruction [OF 1, of "[]"] 1 show ?thesis by blast
qed

text \<open>
  C10. When the normalized instruction matches the arithmetic trigger, the match has
  three groups, the first is one of the four keywords, the lookup of its symbol in the
  table succeeds, and the full version returns \<^verbatim>\<open>print(a symbol b)\<close> for the two
  captured numbers: the transformation raises nothing.
\<close>

theorem arithmetic_synthesis_total:
  assumes "fullmatch pat_arith (normalize s) = Some m"
  shows "\<exists>op a b symb. m = [op, a, b]
       \<and> op \<in> set [''add'', ''subtract'', ''multiply'', ''divide'']
       \<and> isdigit a \<and> isdigit b
       \<and> decimal_digits a \<and> decimal_digits b
       \<and> map_of op_symbols op = Some symb
       \<and> act_arith m = Inr (''print('' @ a @ '' '' @ symb @ '' '' @ b @ '')'')
       \<and> generate_python_code s = act_arith m"
proof -
  from assms have "(m, []) \<in> set (match_pattern pat_arith (normalize s))"
    by (rule fullmatch_SomeD)
  then obtain op a b where op: "op \<in> set [''add'', ''subtract'', ''multiply'', ''divide'']"
    and n: "normalize s = op @ '' '' @ a @ '' and '' @ b"
    and d: "decimal_digits a" "decimal_digits b" and m: "m = [op, a, b]"
    by (auto simp: match_arith)
  from d have d': "isdigit a" "isdigit b"
    by (simp_all add: decimal_digits_isdigit)
  from op obtain symb where symb: "map_of op_symbols op = Some symb"
    by (auto simp: op_symbols_def)
  then have act: "act_arith m = Inr (''print('' @ a @ '' '' @ symb @ '' '' @ b @ '')'')"
    by (simp add: act_arith_def m)
  have "normalize s \<noteq> []" using n by simp
  moreover from assms have "apply_rules rules (normalize s) = act_arith m"
    by (rule apply_rules_arith)
  ultimately have "generate_python_code s = act_arith m"
    by (simp add: generate_python_code_def generate_with_def)
  with m op d d' symb act show ?thesis by blast
qed

theorem arithmetic_synthesis_total_witness:
  "fullmatch pat_arith (normalize ''Add 10 and 20'') = Some [''add'', ''10'', ''20'']
   \<and> generate_python_code ''Add 10 and 20'' = Inr ''print(10 + 20)''"
proof -
  have 1: "fullmatch pat_arith (normalize ''Add 10 and 20'') = Some [''add'', ''10'', ''20'']"
    by code_simp
  from arithmetic_synthesis_total [OF 1]
  obtain symb where "map_of op_symbols ''add'' = Some symb"
    and "act_arith [''add'', ''10'', ''20'']
      = Inr (''print('' @ ''10'' @ '' '' @ symb @ '' '' @ ''20'' @ '')'')"
    and "generate_python_code ''Add 10 and 20'' = act_arith [''add'', ''10'', ''20'']"
    by auto
  then have "generate_python_code ''Add 10 and 20'' = Inr ''print(10 + 20)''"
    by (auto simp: op_symbols_def)
  with 1 show ?thesis by blast
qed

end
